theory Spec2Isabelle
  imports Main "HOL-Library.Sublist"
begin

section \<open>Live tail broadcast engine of the log viewer (app.py)\<close>

text \<open>
  The development embeds the streaming core of \<^verbatim>\<open>app.py\<close>: the snapshot reader
  \<^verbatim>\<open>send_last_lines\<close>, the tail worker \<^verbatim>\<open>tail_file_background\<close>, the registry
  \<^verbatim>\<open>tail_threads\<close> and the Socket.IO handlers \<^verbatim>\<open>on_join\<close>, \<^verbatim>\<open>on_leave\<close>,
  \<^verbatim>\<open>on_disconnect\<close>.

  Scope of the model.
  \<^item> A file is its sequence of characters, one character per byte (a one-byte
    encoding); offsets count characters. The files are opened in text mode, so what
    \<^verbatim>\<open>read\<close> and \<^verbatim>\<open>readline\<close> return has every carriage return, with a line
    feed that follows it, turned into one newline. Decoding of multi-byte sequences is
    outside the model.
  \<^item> A file system is a map from paths to texts; a path that is not mapped cannot be
    opened (\<^verbatim>\<open>open\<close> raises). An open handle is the path with a read position.
  \<^item> The event channel is a map from room names to the connections in the room and an
    outbox of deliveries; a delivery is an event with the set of connections it goes to.
    \<^verbatim>\<open>join_room\<close> and \<^verbatim>\<open>leave_room\<close> change membership, and the channel itself
    takes a connection that closes out of its rooms.
  \<^item> Handlers run as single steps. A tail worker runs in steps that end where the
    source leaves a lock section or finishes a read, so that every interleaving of the
    model is a schedule of the program.
\<close>

subsection \<open>Text: line boundaries, \<^verbatim>\<open>str.splitlines\<close>, slices, \<^verbatim>\<open>readline\<close>\<close>

abbreviation LF :: char where "LF \<equiv> CHR 0x0A"
abbreviation CR :: char where "CR \<equiv> CHR 0x0D"

text \<open>
  The characters at which \<^verbatim>\<open>str.splitlines\<close> ends a line, among the code points
  below 256: line feed, vertical tab, form feed, carriage return, the file, group and
  record separators, and NEL.
\<close>

definition is_linebreak :: "char \<Rightarrow> bool" where
  "is_linebreak c \<longleftrightarrow>
     c \<in> set [CHR 0x0A, CHR 0x0B, CHR 0x0C, CHR 0x0D, CHR 0x1C, CHR 0x1D, CHR 0x1E, CHR 0x85]"

text \<open>Step over one line boundary; carriage return followed by line feed is one boundary.\<close>

fun skip_break :: "string \<Rightarrow> string" where
  "skip_break [] = []"
| "skip_break (c # r) = (if c = CR \<and> r \<noteq> [] \<and> hd r = LF then tl r else r)"

text \<open>
  \<^verbatim>\<open>s.splitlines()\<close>: scan to the next line boundary, keep the text before it as a
  line, step over the boundary, repeat until the text is used up. A text that ends with
  a boundary yields no empty last line.
\<close>

function splitlines :: "string \<Rightarrow> string list" where
  "splitlines s =
     (if s = [] then []
      else takeWhile (\<lambda>c. \<not> is_linebreak c) s
           # splitlines (skip_break (dropWhile (\<lambda>c. \<not> is_linebreak c) s)))"
  by pat_completeness auto
termination
proof (relation "measure length")
  show "wf (measure length)" by simp
next
  fix s :: string
  assume ne: "s \<noteq> []"
  let ?d = "dropWhile (\<lambda>c. \<not> is_linebreak c) s"
  have "length (skip_break t) \<le> length t - 1" for t
    by (cases t) auto
  then have "length (skip_break ?d) \<le> length ?d - 1" .
  moreover have "length ?d \<le> length s"
    by (rule length_dropWhile_le)
  moreover have "0 < length s" using ne by simp
  ultimately have "length (skip_break ?d) < length s" by arith
  then show "(skip_break ?d, s) \<in> measure length" by simp
qed

declare splitlines.simps [simp del]

text \<open>
  The Python slice \<^verbatim>\<open>xs[i:]\<close>: a negative start counts from the end and is clamped at
  the front; a start of zero (also \<^verbatim>\<open>-0\<close>) is the whole list.
\<close>

definition slice_from :: "int \<Rightarrow> 'a list \<Rightarrow> 'a list" where
  "slice_from i xs =
     (if i < 0 then drop (nat (int (length xs) + i)) xs else drop (nat i) xs)"

text \<open>
  What the text layer makes of the characters of a file (\<^verbatim>\<open>open(path, "r")\<close>, universal
  newlines): a carriage return followed by a line feed, and a carriage return alone,
  become one newline.
\<close>

fun universal_newlines :: "string \<Rightarrow> string" where
  "universal_newlines [] = []"
| "universal_newlines [c] = [if c = CR then LF else c]"
| "universal_newlines (c # d # cs) =
     (if c = CR \<and> d = LF then LF # universal_newlines cs
      else if c = CR then LF # universal_newlines (d # cs)
      else c # universal_newlines (d # cs))"

text \<open>
  \<^verbatim>\<open>fh.readline()\<close> at read position \<open>pos\<close>, with the position after the read. The line
  is the text up to the next line end, which is returned as a newline, or up to the end
  of the file when no line end follows; it is empty at the end of the file. A line end
  is a line feed, a carriage return followed by a line feed, or a carriage return,
  also one that is the last character of the file when the read is made.
\<close>

definition readline :: "string \<Rightarrow> nat \<Rightarrow> string \<times> nat" where
  "readline content pos =
     (let rest = drop pos content;
          line = takeWhile (\<lambda>c. c \<noteq> LF \<and> c \<noteq> CR) rest;
          after = dropWhile (\<lambda>c. c \<noteq> LF \<and> c \<noteq> CR) rest
      in if after = [] then (line, pos + length line)
         else if hd after = CR \<and> tl after \<noteq> [] \<and> hd (tl after) = LF
              then (line @ [LF], pos + length line + 2)
              else (line @ [LF], pos + length line + 1))"

subsection \<open>Paths and files\<close>

definition LOG_DIR :: string where
  "LOG_DIR = ''/var/log''"

text \<open>\<^verbatim>\<open>os.path.join(a, b)\<close> on POSIX: an absolute second component replaces the first.\<close>

definition os_path_join :: "string \<Rightarrow> string \<Rightarrow> string" where
  "os_path_join a b =
     (if b \<noteq> [] \<and> hd b = CHR ''/'' then b
      else if a = [] \<or> last a = CHR ''/'' then a @ b
      else a @ ''/'' @ b)"

type_synonym filesystem = "string \<rightharpoonup> string"

text \<open>The exception \<^verbatim>\<open>open\<close> raises for a path that cannot be opened.\<close>

datatype error = FileNotFound string

subsection \<open>The snapshot scan\<close>

definition block :: nat where
  "block = 4096"

text \<open>
  The loop of \<^verbatim>\<open>send_last_lines\<close>:
  \<^verbatim>\<open>
  while len(data.splitlines()) <= n and size > 0:
      size = max(0, size - block)
      fh.seek(size)
      data = fh.read()
  \<close>
  The result is the final offset with the text read there; \<^verbatim>\<open>fh.read()\<close> returns the
  characters from the offset to the end of the file, through the text layer.
\<close>

function scan_back :: "int \<Rightarrow> string \<Rightarrow> nat \<Rightarrow> string \<Rightarrow> nat \<times> string" where
  "scan_back n content sz data =
     (if int (length (splitlines data)) \<le> n \<and> 0 < sz
      then (let sz' = max 0 (sz - block)
            in scan_back n content sz' (universal_newlines (drop sz' content)))
      else (sz, data))"
  by pat_completeness auto
termination
  by (relation "measure (\<lambda>(n, content, sz, data). sz)") (auto simp: block_def)

declare scan_back.simps [simp del]

text \<open>
  The lines \<^verbatim>\<open>send_last_lines\<close> sends for an opened file:
  \<^verbatim>\<open>fh.seek(0, os.SEEK_END); size = fh.tell(); data = ""\<close>, the loop, then
  \<^verbatim>\<open>data.splitlines()[-n:]\<close>.
\<close>

definition last_lines :: "int \<Rightarrow> string \<Rightarrow> string list" where
  "last_lines n content =
     slice_from (- n) (splitlines (snd (scan_back n content (length content) [])))"



subsection \<open>Event channel, registry and workers\<close>

type_synonym conn = nat

datatype event =
    Joined string
  | Log_line string string
  | Log_error string error

text \<open>
  A registry entry \<^verbatim>\<open>{"thread": Thread, "stop": bool, "file": str}\<close>. The thread is
  the index of the worker in the list of threads.
\<close>

record entry =
  thread :: "nat option"
  stop :: bool
  entry_file :: string

text \<open>
  Where a worker stands in \<^verbatim>\<open>tail_file_background\<close>: before \<^verbatim>\<open>open\<close>; at the
  top of the loop, before the lock section that reads the registry; before
  \<^verbatim>\<open>readline\<close>; before the lock section of the \<^verbatim>\<open>finally\<close> block; returned. The
  number is the read position of the handle.
\<close>

datatype pc = Opening | Loop_top nat | Reading nat | Cleanup | Finished

record worker =
  w_filename :: string
  w_room :: string
  w_pc :: pc

record state =
  fs :: filesystem
  rooms :: "string \<Rightarrow> conn set"
  tail_threads :: "string \<rightharpoonup> entry"
  threads :: "worker list"
  outbox :: "(conn set \<times> event) list"

definition join_room :: "conn \<Rightarrow> string \<Rightarrow> state \<Rightarrow> state" where
  "join_room c room s = s\<lparr>rooms := (rooms s)(room := insert c (rooms s room))\<rparr>"

definition leave_room :: "conn \<Rightarrow> string \<Rightarrow> state \<Rightarrow> state" where
  "leave_room c room s = s\<lparr>rooms := (rooms s)(room := rooms s room - {c})\<rparr>"

text \<open>\<^verbatim>\<open>emit(...)\<close> inside a handler: to the connection that sent the request.\<close>

definition emit :: "conn \<Rightarrow> event \<Rightarrow> state \<Rightarrow> state" where
  "emit c ev s = s\<lparr>outbox := outbox s @ [({c}, ev)]\<rparr>"

text \<open>\<^verbatim>\<open>socketio.emit(..., room=room)\<close>: to every connection in the room.\<close>

definition socketio_emit :: "event \<Rightarrow> string \<Rightarrow> state \<Rightarrow> state" where
  "socketio_emit ev room s = s\<lparr>outbox := outbox s @ [(rooms s room, ev)]\<rparr>"

fun emit_lines :: "string \<Rightarrow> string \<Rightarrow> string list \<Rightarrow> state \<Rightarrow> state" where
  "emit_lines filename room [] s = s"
| "emit_lines filename room (line # lines) s =
     emit_lines filename room lines (socketio_emit (Log_line filename (line @ [LF])) room s)"

definition send_last_lines :: "string \<Rightarrow> string \<Rightarrow> int \<Rightarrow> state \<Rightarrow> state" where
  "send_last_lines filename room n s =
     (let path = os_path_join LOG_DIR filename
      in case fs s path of
           None \<Rightarrow> socketio_emit (Log_error filename (FileNotFound path)) room s
         | Some content \<Rightarrow> emit_lines filename room (last_lines n content) s)"

definition set_pc :: "nat \<Rightarrow> pc \<Rightarrow> state \<Rightarrow> state" where
  "set_pc i p s = s\<lparr>threads := (threads s)[i := (threads s ! i)\<lparr>w_pc := p\<rparr>]\<rparr>"

text \<open>
  One step of worker \<open>i\<close> in \<^verbatim>\<open>tail_file_background\<close>.
  \<^item> \<open>Opening\<close>: \<^verbatim>\<open>open(path)\<close> and \<^verbatim>\<open>fh.seek(0, os.SEEK_END)\<close>; when \<^verbatim>\<open>open\<close>
    raises, the \<^verbatim>\<open>except\<close> branch emits \<^verbatim>\<open>log_error\<close> and the \<^verbatim>\<open>finally\<close> block
    is next.
  \<^item> \<open>Loop_top\<close>: under the lock, \<^verbatim>\<open>info = tail_threads.get(room)\<close>; leave the loop
    when there is no entry or the entry is stopped.
  \<^item> \<open>Reading\<close>: \<^verbatim>\<open>line = fh.readline()\<close>, on the text the file holds at that
    moment; an empty result sleeps and continues, any other is emitted to the room.
  \<^item> \<open>Cleanup\<close>: under the lock, \<^verbatim>\<open>tail_threads.pop(room, None)\<close>.
\<close>

definition tail_file_background :: "nat \<Rightarrow> state \<Rightarrow> state" where
  "tail_file_background i s =
     (if length (threads s) \<le> i then s
      else
        let w = threads s ! i;
            filename = w_filename w;
            room = w_room w;
            path = os_path_join LOG_DIR filename
        in case w_pc w of
             Opening \<Rightarrow>
               (case fs s path of
                  None \<Rightarrow>
                    set_pc i Cleanup
                      (socketio_emit (Log_error filename (FileNotFound path)) room s)
                | Some content \<Rightarrow> set_pc i (Loop_top (length content)) s)
           | Loop_top pos \<Rightarrow>
               (case tail_threads s room of
                  None \<Rightarrow> set_pc i Cleanup s
                | Some info \<Rightarrow>
                    if stop info then set_pc i Cleanup s else set_pc i (Reading pos) s)
           | Reading pos \<Rightarrow>
               (let (line, pos') =
                      readline (case fs s path of None \<Rightarrow> [] | Some content \<Rightarrow> content) pos
                in if line = [] then set_pc i (Loop_top pos) s
                   else set_pc i (Loop_top pos')
                          (socketio_emit (Log_line filename line) room s))
           | Cleanup \<Rightarrow>
               set_pc i Finished (s\<lparr>tail_threads := (tail_threads s)(room := None)\<rparr>)
           | Finished \<Rightarrow> s)"

text \<open>
  The handlers. The request's \<^verbatim>\<open>data.get("file")\<close> is \<open>None\<close> when the key is
  missing; \<^verbatim>\<open>if not filename: return\<close> also returns for the empty string.

  The lock section of \<^verbatim>\<open>on_join\<close>:
  \<^verbatim>\<open>
  old = tail_threads.get(room)
  if old:
      old["stop"] = True
  tail_threads[room] = {"thread": None, "stop": False, "file": filename}
  thread = Thread(target=tail_file_background, args=(filename, room), daemon=True)
  tail_threads[room]["thread"] = thread
  thread.start()
  \<close>
  An entry is a dictionary object. A worker is given the file name and the room, never
  an entry, and it looks the room up anew in every iteration; so the registry is a map
  from rooms to entry values, in which \<^verbatim>\<open>old["stop"] = True\<close> updates the stored
  entry and the next assignment replaces it.
\<close>

definition on_join :: "conn \<Rightarrow> string option \<Rightarrow> state \<Rightarrow> state" where
  "on_join c data s =
     (case data of
        None \<Rightarrow> s
      | Some filename \<Rightarrow>
          if filename = [] then s
          else
            let room = filename;
                s1 = join_room c room s;
                s2 = emit c (Joined filename) s1;
                s3 = send_last_lines filename room 200 s2;
                s4 = (case tail_threads s3 room of
                        None \<Rightarrow> s3
                      | Some old \<Rightarrow>
                          s3\<lparr>tail_threads := (tail_threads s3)(room \<mapsto> old\<lparr>stop := True\<rparr>)\<rparr>);
                s5 = s4\<lparr>tail_threads := (tail_threads s4)
                          (room \<mapsto> \<lparr>thread = None, stop = False, entry_file = filename\<rparr>)\<rparr>;
                t = length (threads s5);
                s6 = s5\<lparr>threads := threads s5
                          @ [\<lparr>w_filename = filename, w_room = room, w_pc = Opening\<rparr>]\<rparr>
            in s6\<lparr>tail_threads := (tail_threads s6)
                     (room \<mapsto> \<lparr>thread = Some t, stop = False, entry_file = filename\<rparr>)\<rparr>)"

definition on_leave :: "conn \<Rightarrow> string option \<Rightarrow> state \<Rightarrow> state" where
  "on_leave c data s =
     (case data of
        None \<Rightarrow> s
      | Some filename \<Rightarrow>
          if filename = [] then s
          else
            let room = filename;
                s1 = leave_room c room s
            in case tail_threads s1 room of
                 None \<Rightarrow> s1
               | Some info \<Rightarrow>
                   s1\<lparr>tail_threads := (tail_threads s1)(room \<mapsto> info\<lparr>stop := True\<rparr>)\<rparr>)"

text \<open>\<^verbatim>\<open>def on_disconnect(): pass\<close>\<close>

definition on_disconnect :: "conn \<Rightarrow> state \<Rightarrow> state" where
  "on_disconnect c s = s"

text \<open>
  Modelled from the spec: the event channel is an external collaborator and is not in
  \<^verbatim>\<open>app.py\<close>. It groups connections into rooms, and a connection that closes is a
  member of no room afterwards: the channel takes it out of every room, once the
  \<^verbatim>\<open>disconnect\<close> handler has run.
\<close>

definition close_connection :: "conn \<Rightarrow> state \<Rightarrow> state" where
  "close_connection c s = s\<lparr>rooms := (\<lambda>room. rooms s room - {c})\<rparr>"

subsection \<open>Runs\<close>

text \<open>
  What can happen next: a request of a connection; a connection closing, which runs the
  \<^verbatim>\<open>disconnect\<close> handler and then the channel's own removal of the connection from
  its rooms; a step of a worker; or text appended to a file by a writer outside the
  program (which creates the file when it is missing).
\<close>

datatype action =
    Join conn "string option"
  | Leave conn "string option"
  | Disconnect conn
  | Tail nat
  | Append string string

definition append_file :: "string \<Rightarrow> string \<Rightarrow> state \<Rightarrow> state" where
  "append_file path txt s =
     s\<lparr>fs := (fs s)(path \<mapsto> (case fs s path of None \<Rightarrow> txt | Some content \<Rightarrow> content @ txt))\<rparr>"

fun step :: "action \<Rightarrow> state \<Rightarrow> state" where
  "step (Join c data) s = on_join c data s"
| "step (Leave c data) s = on_leave c data s"
| "step (Disconnect c) s = close_connection c (on_disconnect c s)"
| "step (Tail i) s = tail_file_background i s"
| "step (Append path txt) s = append_file path txt s"

fun run :: "action list \<Rightarrow> state \<Rightarrow> state" where
  "run [] s = s"
| "run (a # as) s = run as (step a s)"

text \<open>The process at start, over a given file system: no rooms, no entries, no workers.\<close>

definition init :: "filesystem \<Rightarrow> state" where
  "init files =
     \<lparr>fs = files, rooms = (\<lambda>room. {}), tail_threads = Map.empty, threads = [], outbox = []\<rparr>"

text \<open>The events a connection receives, in the order of their emission.\<close>

definition received :: "conn \<Rightarrow> (conn set \<times> event) list \<Rightarrow> event list" where
  "received c out = map snd (filter (\<lambda>d. c \<in> fst d) out)"

section \<open>Properties\<close>

subsection \<open>Lines of a text\<close>

lemma splitlines_Nil [simp]: "splitlines [] = []"
  by (simp add: splitlines.simps)
















subsection \<open>What the handlers and the snapshot reader change\<close>

lemma emit_lines_fields:
  "fs (emit_lines filename room ls s) = fs s \<and>
   rooms (emit_lines filename room ls s) = rooms s \<and>
   tail_threads (emit_lines filename room ls s) = tail_threads s \<and>
   threads (emit_lines filename room ls s) = threads s \<and>
   outbox (emit_lines filename room ls s)
     = outbox s @ map (\<lambda>l. (rooms s room, Log_line filename (l @ [LF]))) ls"
  by (induction ls arbitrary: s) (simp_all add: socketio_emit_def)

lemma send_last_lines_fields:
  "fs (send_last_lines filename room n s) = fs s \<and>
   rooms (send_last_lines filename room n s) = rooms s \<and>
   tail_threads (send_last_lines filename room n s) = tail_threads s \<and>
   threads (send_last_lines filename room n s) = threads s \<and>
   outbox (send_last_lines filename room n s)
     = outbox s @ map (\<lambda>ev. (rooms s room, ev))
         (case fs s (os_path_join LOG_DIR filename) of
            None \<Rightarrow> [Log_error filename (FileNotFound (os_path_join LOG_DIR filename))]
          | Some content \<Rightarrow> map (\<lambda>l. Log_line filename (l @ [LF])) (last_lines n content))"
  by (cases "fs s (os_path_join LOG_DIR filename)")
     (simp_all add: send_last_lines_def Let_def socketio_emit_def emit_lines_fields comp_def)

lemma on_join_fields:
  assumes "filename \<noteq> []"
  shows "fs (on_join c (Some filename) s) = fs s"
    and "rooms (on_join c (Some filename) s)
           = (rooms s)(filename := insert c (rooms s filename))"
    and "threads (on_join c (Some filename) s)
           = threads s @ [\<lparr>w_filename = filename, w_room = filename, w_pc = Opening\<rparr>]"
    and "tail_threads (on_join c (Some filename) s)
           = (tail_threads s)(filename \<mapsto>
                \<lparr>thread = Some (length (threads s)), stop = False, entry_file = filename\<rparr>)"
    and "outbox (on_join c (Some filename) s)
           = outbox s @ ({c}, Joined filename)
               # map (\<lambda>ev. (insert c (rooms s filename), ev))
                   (case fs s (os_path_join LOG_DIR filename) of
                      None \<Rightarrow> [Log_error filename (FileNotFound (os_path_join LOG_DIR filename))]
                    | Some content \<Rightarrow>
                        map (\<lambda>l. Log_line filename (l @ [LF])) (last_lines 200 content))"
  using assms
  by (simp_all add: on_join_def Let_def send_last_lines_fields join_room_def emit_def
        split: option.splits)


lemma set_pc_fields:
  "fs (set_pc i p s) = fs s"
  "rooms (set_pc i p s) = rooms s"
  "tail_threads (set_pc i p s) = tail_threads s"
  "outbox (set_pc i p s) = outbox s"
  "length (threads (set_pc i p s)) = length (threads s)"
  "i < length (threads s) \<Longrightarrow> w_pc (threads (set_pc i p s) ! i) = p"
  "i < length (threads s) \<Longrightarrow> w_filename (threads (set_pc i p s) ! i) = w_filename (threads s ! i)"
  "i < length (threads s) \<Longrightarrow> w_room (threads (set_pc i p s) ! i) = w_room (threads s ! i)"
  "j \<noteq> i \<Longrightarrow> threads (set_pc i p s) ! j = threads s ! j"
  by (simp_all add: set_pc_def)

lemma socketio_emit_fields:
  "fs (socketio_emit ev room s) = fs s"
  "rooms (socketio_emit ev room s) = rooms s"
  "tail_threads (socketio_emit ev room s) = tail_threads s"
  "threads (socketio_emit ev room s) = threads s"
  "outbox (socketio_emit ev room s) = outbox s @ [(rooms s room, ev)]"
  by (simp_all add: socketio_emit_def)

lemma tail_Opening:
  assumes "i < length (threads s)" and "w_pc (threads s ! i) = Opening"
  shows "tail_file_background i s =
     (case fs s (os_path_join LOG_DIR (w_filename (threads s ! i))) of
        None \<Rightarrow>
          set_pc i Cleanup
            (socketio_emit
               (Log_error (w_filename (threads s ! i))
                  (FileNotFound (os_path_join LOG_DIR (w_filename (threads s ! i)))))
               (w_room (threads s ! i)) s)
      | Some content \<Rightarrow> set_pc i (Loop_top (length content)) s)"
  using assms by (simp add: tail_file_background_def Let_def)

lemma tail_Loop_top:
  assumes "i < length (threads s)" and "w_pc (threads s ! i) = Loop_top pos"
  shows "tail_file_background i s =
     (case tail_threads s (w_room (threads s ! i)) of
        None \<Rightarrow> set_pc i Cleanup s
      | Some info \<Rightarrow> if stop info then set_pc i Cleanup s else set_pc i (Reading pos) s)"
  using assms by (simp add: tail_file_background_def Let_def)

lemma tail_Reading:
  assumes "i < length (threads s)" and "w_pc (threads s ! i) = Reading pos"
  shows "tail_file_background i s =
     (let r = readline (case fs s (os_path_join LOG_DIR (w_filename (threads s ! i))) of
                          None \<Rightarrow> [] | Some content \<Rightarrow> content) pos
      in if fst r = [] then set_pc i (Loop_top pos) s
         else set_pc i (Loop_top (snd r))
                (socketio_emit (Log_line (w_filename (threads s ! i)) (fst r))
                   (w_room (threads s ! i)) s))"
  using assms by (simp add: tail_file_background_def Let_def split_beta)

lemma tail_Cleanup:
  assumes "i < length (threads s)" and "w_pc (threads s ! i) = Cleanup"
  shows "tail_file_background i s =
     set_pc i Finished (s\<lparr>tail_threads := (tail_threads s)(w_room (threads s ! i) := None)\<rparr>)"
  using assms by (simp add: tail_file_background_def Let_def)

lemma tail_Finished:
  assumes "i < length (threads s)" and "w_pc (threads s ! i) = Finished"
  shows "tail_file_background i s = s"
  using assms by (simp add: tail_file_background_def Let_def)

lemma close_connection_fields:
  "fs (close_connection c s) = fs s"
  "rooms (close_connection c s) room = rooms s room - {c}"
  "tail_threads (close_connection c s) = tail_threads s"
  "threads (close_connection c s) = threads s"
  "outbox (close_connection c s) = outbox s"
  by (simp_all add: close_connection_def)

subsection \<open>The steps of a worker over a run\<close>




lemma readline_unread:
  assumes "pos < length content"
  shows "fst (readline content pos) \<noteq> [] \<and>
         pos < snd (readline content pos) \<and>
         snd (readline content pos) \<le> length content \<and>
         (last (fst (readline content pos)) = LF \<or>
          snd (readline content pos) = length content)"
proof -
  let ?P = "\<lambda>c. c \<noteq> LF \<and> c \<noteq> CR"
  let ?rest = "drop pos content"
  let ?line = "takeWhile ?P ?rest"
  let ?after = "dropWhile ?P ?rest"
  have ne: "?rest \<noteq> []" using assms by simp
  have len: "length ?line + length ?after = length content - pos"
    by (metis length_append length_drop takeWhile_dropWhile_id)
  show ?thesis
  proof (cases ?after)
    case Nil
    then have rl: "readline content pos = (?line, pos + length ?line)"
      by (simp add: readline_def Let_def)
    have e: "pos + length ?line = length content" using len assms unfolding Nil by simp
    then have l: "?line \<noteq> []" using assms by auto
    then have "pos < pos + length ?line" by simp
    then show ?thesis using l e unfolding rl fst_conv snd_conv by simp
  next
    case (Cons c r)
    then have ne: "?after \<noteq> []" by simp
    show ?thesis
    proof (cases "hd ?after = CR \<and> tl ?after \<noteq> [] \<and> hd (tl ?after) = LF")
      case True
      have rl: "readline content pos = (?line @ [LF], pos + length ?line + 2)"
        using ne True by (simp add: readline_def Let_def)
      have "2 \<le> length ?after" using Cons True by (cases r) auto
      then have "pos + length ?line + 2 \<le> length content" using len assms by arith
      then show ?thesis unfolding rl fst_conv snd_conv by simp
    next
      case False
      have rl: "readline content pos = (?line @ [LF], pos + length ?line + 1)"
        using ne False by (simp add: readline_def Let_def)
      have "1 \<le> length ?after" using Cons by simp
      then have "pos + length ?line + 1 \<le> length content" using len assms by arith
      then show ?thesis unfolding rl fst_conv snd_conv by simp
    qed
  qed
qed


lemma append_file_fields:
  "fs (append_file p t s) = (fs s)(p \<mapsto> (case fs s p of None \<Rightarrow> t | Some content \<Rightarrow> content @ t))"
  "rooms (append_file p t s) = rooms s"
  "tail_threads (append_file p t s) = tail_threads s"
  "threads (append_file p t s) = threads s"
  "outbox (append_file p t s) = outbox s"
  by (simp_all add: append_file_def)


lemma tail_reads_unread:
  assumes i: "i < length (threads s)"
    and pc: "w_pc (threads s ! i) = Loop_top pos"
    and e: "tail_threads s (w_room (threads s ! i)) = Some info"
    and live: "\<not> stop info"
    and f: "fs s (os_path_join LOG_DIR (w_filename (threads s ! i))) = Some content"
    and unread: "pos < length content"
  shows "outbox (tail_file_background i (tail_file_background i s))
           = outbox s @ [(rooms s (w_room (threads s ! i)),
                          Log_line (w_filename (threads s ! i)) (fst (readline content pos)))]"
    and "w_pc (threads (tail_file_background i (tail_file_background i s)) ! i)
           = Loop_top (snd (readline content pos))"
proof -
  let ?s1 = "tail_file_background i s"
  have s1: "?s1 = set_pc i (Reading pos) s"
    using e live by (simp add: tail_Loop_top [OF i pc])
  have i1: "i < length (threads ?s1)" using i by (simp add: s1 set_pc_fields)
  have pc1: "w_pc (threads ?s1 ! i) = Reading pos" using i by (simp add: s1 set_pc_fields)
  have w1: "w_filename (threads ?s1 ! i) = w_filename (threads s ! i)"
    "w_room (threads ?s1 ! i) = w_room (threads s ! i)"
    using i by (simp_all add: s1 set_pc_fields)
  have f1: "fs ?s1 (os_path_join LOG_DIR (w_filename (threads s ! i))) = Some content"
    using f by (simp add: s1 set_pc_fields)
  have ne: "fst (readline content pos) \<noteq> []"
    using readline_unread [OF unread] by blast
  have s2: "tail_file_background i ?s1
      = set_pc i (Loop_top (snd (readline content pos)))
          (socketio_emit (Log_line (w_filename (threads s ! i)) (fst (readline content pos)))
             (w_room (threads s ! i)) ?s1)"
    using ne f1 by (simp add: tail_Reading [OF i1 pc1] w1 Let_def)
  show "outbox (tail_file_background i ?s1)
           = outbox s @ [(rooms s (w_room (threads s ! i)),
                          Log_line (w_filename (threads s ! i)) (fst (readline content pos)))]"
    unfolding s2 by (simp add: set_pc_fields socketio_emit_fields) (simp add: s1 set_pc_fields)
  show "w_pc (threads (tail_file_background i ?s1) ! i) = Loop_top (snd (readline content pos))"
    unfolding s2 using i1 by (simp add: set_pc_fields socketio_emit_fields)
qed

lemma join_tail_reads:
  assumes ne: "filename \<noteq> []"
    and f: "fs s (os_path_join LOG_DIR filename) = Some content"
    and t: "t \<noteq> []"
  shows "outbox (run [Join c (Some filename), Tail (length (threads s)),
                      Append (os_path_join LOG_DIR filename) t,
                      Tail (length (threads s)), Tail (length (threads s))] s)
         = outbox (on_join c (Some filename) s)
           @ [(insert c (rooms s filename),
               Log_line filename (fst (readline (content @ t) (length content))))]"
proof -
  let ?i = "length (threads s)"
  let ?path = "os_path_join LOG_DIR filename"
  let ?s1 = "on_join c (Some filename) s"
  let ?s2 = "tail_file_background ?i ?s1"
  let ?s3 = "append_file ?path t ?s2"
  note j = on_join_fields [OF ne, of c s]
  have i1: "?i < length (threads ?s1)" by (simp add: j)
  have pc1: "w_pc (threads ?s1 ! ?i) = Opening" by (simp add: j)
  have s2: "?s2 = set_pc ?i (Loop_top (length content)) ?s1"
    using f by (simp add: tail_Opening [OF i1 pc1] j)
  have i3: "?i < length (threads ?s3)"
    by (simp add: append_file_fields s2 set_pc_fields j)
  have w3: "threads ?s3 ! ?i
            = \<lparr>w_filename = filename, w_room = filename, w_pc = Loop_top (length content)\<rparr>"
    by (simp add: append_file_fields s2 set_pc_def j)
  have pc3: "w_pc (threads ?s3 ! ?i) = Loop_top (length content)" by (simp add: w3)
  have e3: "tail_threads ?s3 (w_room (threads ?s3 ! ?i))
            = Some \<lparr>thread = Some ?i, stop = False, entry_file = filename\<rparr>"
    by (simp add: w3) (simp add: append_file_fields s2 set_pc_fields j)
  have f3: "fs ?s3 (os_path_join LOG_DIR (w_filename (threads ?s3 ! ?i))) = Some (content @ t)"
    using f by (simp add: w3) (simp add: append_file_fields s2 set_pc_fields j)
  have u: "length content < length (content @ t)" using t by simp
  have o3: "outbox ?s3 = outbox ?s1" by (simp add: append_file_fields s2 set_pc_fields)
  have r3: "rooms ?s3 filename = insert c (rooms s filename)"
    by (simp add: append_file_fields s2 set_pc_fields j)
  have "outbox (tail_file_background ?i (tail_file_background ?i ?s3))
        = outbox ?s3 @ [(rooms ?s3 (w_room (threads ?s3 ! ?i)),
             Log_line (w_filename (threads ?s3 ! ?i))
               (fst (readline (content @ t) (length content))))]"
    by (rule tail_reads_unread(1) [OF i3 pc3 e3 _ f3 u]) simp
  then show ?thesis by (simp add: w3 o3 r3)
qed

text \<open>The definitions unfolded to evaluate a run on concrete inputs.\<close>

lemmas eval_defs =
  init_def on_join_def on_leave_def on_disconnect_def close_connection_def
  tail_file_background_def
  join_room_def leave_room_def emit_def send_last_lines_def socketio_emit_def set_pc_def
  os_path_join_def LOG_DIR_def last_lines_def scan_back.simps splitlines.simps
  is_linebreak_def slice_from_def block_def append_file_def readline_def received_def
  Let_def

subsection \<open>The snapshot reader\<close>




text \<open>
  C7. With \<open>n = 0\<close> the slice \<^verbatim>\<open>data.splitlines()[-n:]\<close> is \<^verbatim>\<open>[0:]\<close>, the whole
  list: for the file \<^verbatim>\<open>a\nb\n\<close> the reader emits both lines, where the claim asks for
  an empty result.
\<close>

theorem send_last_lines_zero:
  "last_lines 0 ''a\<newline>b\<newline>'' = [''a'', ''b''] \<and>
   outbox (send_last_lines ''app.log'' ''app.log'' 0
             (join_room 1 ''app.log'' (init [''/var/log/app.log'' \<mapsto> ''a\<newline>b\<newline>''])))
     = [({1}, Log_line ''app.log'' ''a\<newline>''), ({1}, Log_line ''app.log'' ''b\<newline>'')]"
  by (simp add: last_lines_def scan_back.simps splitlines.simps is_linebreak_def
        slice_from_def block_def send_last_lines_def init_def join_room_def
        os_path_join_def LOG_DIR_def socketio_emit_def)

subsection \<open>The join handler and the path it opens\<close>

text \<open>
  C9. \<^verbatim>\<open>on_join\<close> checks nothing but that the file name is not empty. For every
  non-empty name it puts the connection into the room of that name, sends the snapshot
  of the file at \<^verbatim>\<open>os.path.join(LOG_DIR, filename)\<close> (or the error of opening it),
  and starts a worker whose first step opens the same path and which then reads that
  file: text appended to it is emitted to the room at the worker's next read.
  \<^verbatim>\<open>os.path.join\<close> returns an absolute second component as it is, so some names lead
  outside \<^verbatim>\<open>LOG_DIR\<close>.
\<close>

theorem on_join_unvalidated_path:
  "(filename \<noteq> [] \<longrightarrow>
      c \<in> rooms (on_join c (Some filename) s) filename \<and>
      outbox (on_join c (Some filename) s)
        = outbox s @ ({c}, Joined filename)
            # map (\<lambda>ev. (insert c (rooms s filename), ev))
                (case fs s (os_path_join LOG_DIR filename) of
                   None \<Rightarrow> [Log_error filename (FileNotFound (os_path_join LOG_DIR filename))]
                 | Some content \<Rightarrow>
                     map (\<lambda>l. Log_line filename (l @ [LF])) (last_lines 200 content)) \<and>
      threads (on_join c (Some filename) s)
        = threads s @ [\<lparr>w_filename = filename, w_room = filename, w_pc = Opening\<rparr>] \<and>
      tail_file_background (length (threads s)) (on_join c (Some filename) s)
        = (case fs s (os_path_join LOG_DIR filename) of
             None \<Rightarrow>
               set_pc (length (threads s)) Cleanup
                 (socketio_emit
                    (Log_error filename (FileNotFound (os_path_join LOG_DIR filename)))
                    filename (on_join c (Some filename) s))
           | Some content \<Rightarrow>
               set_pc (length (threads s)) (Loop_top (length content))
                 (on_join c (Some filename) s))) \<and>
   (filename \<noteq> [] \<and> fs s (os_path_join LOG_DIR filename) = Some content \<and> t \<noteq> [] \<longrightarrow>
      outbox (run [Join c (Some filename), Tail (length (threads s)),
                   Append (os_path_join LOG_DIR filename) t,
                   Tail (length (threads s)), Tail (length (threads s))] s)
        = outbox (on_join c (Some filename) s)
          @ [(insert c (rooms s filename),
              Log_line filename (fst (readline (content @ t) (length content))))]) \<and>
   (b \<noteq> [] \<and> hd b = CHR ''/'' \<longrightarrow> os_path_join LOG_DIR b = b) \<and>
   (\<exists>name. name \<noteq> [] \<and> \<not> prefix LOG_DIR (os_path_join LOG_DIR name))"
proof (intro conjI impI)
  assume ne: "filename \<noteq> []"
  note j = on_join_fields [OF ne, of c s]
  show "c \<in> rooms (on_join c (Some filename) s) filename" by (simp add: j)
  show "outbox (on_join c (Some filename) s)
        = outbox s @ ({c}, Joined filename)
            # map (\<lambda>ev. (insert c (rooms s filename), ev))
                (case fs s (os_path_join LOG_DIR filename) of
                   None \<Rightarrow> [Log_error filename (FileNotFound (os_path_join LOG_DIR filename))]
                 | Some content \<Rightarrow>
                     map (\<lambda>l. Log_line filename (l @ [LF])) (last_lines 200 content))"
    by (rule j(5))
  show "threads (on_join c (Some filename) s)
        = threads s @ [\<lparr>w_filename = filename, w_room = filename, w_pc = Opening\<rparr>]"
    by (rule j(3))
  have i: "length (threads s) < length (threads (on_join c (Some filename) s))"
    by (simp add: j)
  have pc: "w_pc (threads (on_join c (Some filename) s) ! length (threads s)) = Opening"
    by (simp add: j)
  show "tail_file_background (length (threads s)) (on_join c (Some filename) s)
        = (case fs s (os_path_join LOG_DIR filename) of
             None \<Rightarrow>
               set_pc (length (threads s)) Cleanup
                 (socketio_emit
                    (Log_error filename (FileNotFound (os_path_join LOG_DIR filename)))
                    filename (on_join c (Some filename) s))
           | Some content \<Rightarrow>
               set_pc (length (threads s)) (Loop_top (length content))
                 (on_join c (Some filename) s))"
    by (cases "fs s (os_path_join LOG_DIR filename)") (simp_all add: tail_Opening [OF i pc] j)
next
  assume "filename \<noteq> [] \<and> fs s (os_path_join LOG_DIR filename) = Some content \<and> t \<noteq> []"
  then show "outbox (run [Join c (Some filename), Tail (length (threads s)),
                   Append (os_path_join LOG_DIR filename) t,
                   Tail (length (threads s)), Tail (length (threads s))] s)
        = outbox (on_join c (Some filename) s)
          @ [(insert c (rooms s filename),
              Log_line filename (fst (readline (content @ t) (length content))))]"
    by (intro join_tail_reads) blast+
next
  assume "b \<noteq> [] \<and> hd b = CHR ''/''"
  then show "os_path_join LOG_DIR b = b" by (simp add: os_path_join_def)
next
  have "''/etc/passwd'' \<noteq> [] \<and> \<not> prefix LOG_DIR (os_path_join LOG_DIR ''/etc/passwd'')"
    by (simp add: os_path_join_def LOG_DIR_def)
  then show "\<exists>name. name \<noteq> [] \<and> \<not> prefix LOG_DIR (os_path_join LOG_DIR name)" by blast
qed

text \<open>
  At the name \<^verbatim>\<open>/etc/passwd\<close> the path opened is \<^verbatim>\<open>/etc/passwd\<close>: the snapshot
  carries the line of that file, the worker stands at its end, and a line appended to
  the file reaches the connection.
\<close>

theorem on_join_unvalidated_path_witness:
  "os_path_join LOG_DIR ''/etc/passwd'' = ''/etc/passwd'' \<and>
   outbox (on_join 1 (Some ''/etc/passwd'') (init [''/etc/passwd'' \<mapsto> ''root:x\<newline>'']))
     = [({1}, Joined ''/etc/passwd''), ({1}, Log_line ''/etc/passwd'' ''root:x\<newline>'')] \<and>
   w_pc (threads (tail_file_background 0
           (on_join 1 (Some ''/etc/passwd'') (init [''/etc/passwd'' \<mapsto> ''root:x\<newline>'']))) ! 0)
     = Loop_top 7 \<and>
   outbox (run [Join 1 (Some ''/etc/passwd''), Tail 0, Append ''/etc/passwd'' ''new:y\<newline>'',
                Tail 0, Tail 0] (init [''/etc/passwd'' \<mapsto> ''root:x\<newline>'']))
     = [({1}, Joined ''/etc/passwd''), ({1}, Log_line ''/etc/passwd'' ''root:x\<newline>''),
        ({1}, Log_line ''/etc/passwd'' ''new:y\<newline>'')]"
proof -
  define s where "s = init [''/etc/passwd'' \<mapsto> ''root:x\<newline>'']"
  have p: "os_path_join LOG_DIR ''/etc/passwd'' = ''/etc/passwd''"
    by (simp add: os_path_join_def)
  have f: "fs s ''/etc/passwd'' = Some ''root:x\<newline>''" "outbox s = []" "threads s = []"
    "rooms s ''/etc/passwd'' = {}"
    unfolding s_def by (simp_all add: init_def)
  have l: "last_lines 200 ''root:x\<newline>'' = [''root:x'']"
    by (simp add: last_lines_def scan_back.simps splitlines.simps is_linebreak_def
          slice_from_def block_def)
  have n: "length (threads (on_join 1 (Some ''/etc/passwd'') s)) = 1"
    by (simp add: on_join_fields f del: One_nat_def)
  have "os_path_join LOG_DIR ''/etc/passwd'' = ''/etc/passwd'' \<and>
   outbox (on_join 1 (Some ''/etc/passwd'') s)
     = [({1}, Joined ''/etc/passwd''), ({1}, Log_line ''/etc/passwd'' ''root:x\<newline>'')] \<and>
   w_pc (threads (tail_file_background 0 (on_join 1 (Some ''/etc/passwd'') s)) ! 0)
     = Loop_top 7 \<and>
   outbox (run [Join 1 (Some ''/etc/passwd''), Tail 0, Append ''/etc/passwd'' ''new:y\<newline>'',
                Tail 0, Tail 0] s)
     = [({1}, Joined ''/etc/passwd''), ({1}, Log_line ''/etc/passwd'' ''root:x\<newline>''),
        ({1}, Log_line ''/etc/passwd'' ''new:y\<newline>'')]"
    using on_join_unvalidated_path
            [of "''/etc/passwd''" 1 s "''root:x\<newline>''" "''new:y\<newline>''" "''/etc/passwd''"] n
    by (simp add: p f l readline_def set_pc_fields del: One_nat_def run.simps step.simps)
  then show ?thesis unfolding s_def .
qed

subsection \<open>Who receives the snapshot\<close>

text \<open>
  C6, as amended. \<^verbatim>\<open>send_last_lines\<close> emits to the room. After a join of connection
  \<open>c\<close> to a file, every connection \<open>c'\<close> has received what it had before, then the
  acknowledgment \<^verbatim>\<open>joined\<close> when \<open>c'\<close> is \<open>c\<close>, then the events of the snapshot
  when \<open>c'\<close> is \<open>c\<close> or was in the room already; connections outside the room receive
  nothing.
\<close>

theorem on_join_snapshot_to_room:
  assumes "filename \<noteq> []"
  shows "received c' (outbox (on_join c (Some filename) s))
         = received c' (outbox s)
           @ (if c' = c then [Joined filename] else [])
           @ (if c' = c \<or> c' \<in> rooms s filename
              then (case fs s (os_path_join LOG_DIR filename) of
                      None \<Rightarrow> [Log_error filename (FileNotFound (os_path_join LOG_DIR filename))]
                    | Some content \<Rightarrow>
                        map (\<lambda>l. Log_line filename (l @ [LF])) (last_lines 200 content))
              else [])"
  by (simp add: received_def on_join_fields(5) [OF assms] comp_def)

theorem on_join_snapshot_to_room_witness:
  "received 1 (outbox (on_join 2 (Some ''app.log'')
                 (on_join 1 (Some ''app.log'') (init [''/var/log/app.log'' \<mapsto> ''l1\<newline>'']))))
     = received 1 (outbox (on_join 1 (Some ''app.log'')
                     (init [''/var/log/app.log'' \<mapsto> ''l1\<newline>''])))
       @ [Log_line ''app.log'' ''l1\<newline>'']"
proof -
  let ?s = "on_join 1 (Some ''app.log'') (init [''/var/log/app.log'' \<mapsto> ''l1\<newline>''])"
  have m: "1 \<in> rooms ?s ''app.log''"
    by (simp add: on_join_fields)
  have f: "fs ?s (os_path_join LOG_DIR ''app.log'') = Some ''l1\<newline>''"
    by (simp add: on_join_fields init_def os_path_join_def LOG_DIR_def)
  have l: "last_lines 200 ''l1\<newline>'' = [''l1'']"
    by (simp add: last_lines_def scan_back.simps splitlines.simps is_linebreak_def
          slice_from_def block_def)
  show ?thesis
    using on_join_snapshot_to_room [of "''app.log''" 1 2 ?s] m
    by (simp add: f l del: One_nat_def)
qed

text \<open>
  C6 as stated fails: connection 1 has joined \<^verbatim>\<open>app.log\<close>, which holds one line;
  when connection 2 joins the same file, connection 1 receives that line a second time.
\<close>

theorem on_join_snapshot_to_room_counterexample:
  "received 1 (outbox (run [Join 1 (Some ''app.log''), Join 2 (Some ''app.log'')]
                         (init [''/var/log/app.log'' \<mapsto> ''l1\<newline>''])))
     = [Joined ''app.log'', Log_line ''app.log'' ''l1\<newline>'', Log_line ''app.log'' ''l1\<newline>'']"
  by (simp add: eval_defs)

subsection \<open>Joining a file that cannot be opened\<close>

text \<open>
  C3, as amended. When the file of a join cannot be opened, the join emits the
  acknowledgment to the connection and one \<^verbatim>\<open>log_error\<close> to the room, from
  \<^verbatim>\<open>send_last_lines\<close>; the worker the join starts emits a second \<^verbatim>\<open>log_error\<close>
  to the room when its own \<^verbatim>\<open>open\<close> fails, the file still being absent; its next
  step removes the room's registry entry and ends the worker, which emits nothing
  further: two error events, no line event.
\<close>

theorem join_missing_file:
  assumes "filename \<noteq> []" and "fs s (os_path_join LOG_DIR filename) = None"
  shows "let err = Log_error filename (FileNotFound (os_path_join LOG_DIR filename));
             members = insert c (rooms s filename);
             i = length (threads s);
             s1 = on_join c (Some filename) s;
             s2 = tail_file_background i s1;
             s3 = tail_file_background i s2
         in outbox s1 = outbox s @ [({c}, Joined filename), (members, err)] \<and>
            outbox s2 = outbox s1 @ [(members, err)] \<and>
            outbox s3 = outbox s2 \<and>
            w_pc (threads s3 ! i) = Finished \<and>
            tail_threads s3 filename = None \<and>
            tail_file_background i s3 = s3"
proof -
  let ?err = "Log_error filename (FileNotFound (os_path_join LOG_DIR filename))"
  let ?i = "length (threads s)"
  let ?s1 = "on_join c (Some filename) s"
  let ?s2 = "tail_file_background ?i ?s1"
  let ?s3 = "tail_file_background ?i ?s2"
  note j = on_join_fields [OF assms(1), of c s]
  have o1: "outbox ?s1 = outbox s @ [({c}, Joined filename), (insert c (rooms s filename), ?err)]"
    using assms(2) by (simp add: j)
  have i1: "?i < length (threads ?s1)" by (simp add: j)
  have w1: "threads ?s1 ! ?i = \<lparr>w_filename = filename, w_room = filename, w_pc = Opening\<rparr>"
    by (simp add: j)
  have s2: "?s2 = set_pc ?i Cleanup (socketio_emit ?err filename ?s1)"
    using assms(2) by (simp add: tail_Opening [OF i1] w1 j(1))
  have o2: "outbox ?s2 = outbox ?s1 @ [(insert c (rooms s filename), ?err)]"
    by (simp add: s2 set_pc_fields socketio_emit_fields j(2))
  have i2: "?i < length (threads ?s2)"
    by (simp add: s2 set_pc_fields socketio_emit_fields j(3))
  have pc2: "w_pc (threads ?s2 ! ?i) = Cleanup"
    using i1 by (simp add: s2 set_pc_fields socketio_emit_fields)
  have r2: "w_room (threads ?s2 ! ?i) = filename"
    using i1 by (simp add: s2 set_pc_fields socketio_emit_fields w1)
  have s3: "?s3 = set_pc ?i Finished (?s2\<lparr>tail_threads := (tail_threads ?s2)(filename := None)\<rparr>)"
    by (simp add: tail_Cleanup [OF i2 pc2] r2)
  have o3: "outbox ?s3 = outbox ?s2" by (simp add: s3 set_pc_fields)
  have pc3: "w_pc (threads ?s3 ! ?i) = Finished"
    using i2 by (simp add: s3 set_pc_fields)
  have t3: "tail_threads ?s3 filename = None" by (simp add: s3 set_pc_fields)
  have i3: "?i < length (threads ?s3)"
    using i2 by (simp add: s3 set_pc_fields)
  have f3: "tail_file_background ?i ?s3 = ?s3"
    by (rule tail_Finished [OF i3 pc3])
  show ?thesis
    unfolding Let_def using o1 o2 o3 pc3 t3 f3 by (intro conjI)
qed

theorem join_missing_file_witness:
  "''missing.log'' \<noteq> [] \<and>
   fs (init Map.empty) (os_path_join LOG_DIR ''missing.log'') = None \<and>
   outbox (run [Join 7 (Some ''missing.log''), Tail 0, Tail 0, Tail 0] (init Map.empty))
     = [({7}, Joined ''missing.log''),
        ({7}, Log_error ''missing.log'' (FileNotFound ''/var/log/missing.log'')),
        ({7}, Log_error ''missing.log'' (FileNotFound ''/var/log/missing.log''))]"
proof -
  have h: "fs (init Map.empty) (os_path_join LOG_DIR ''missing.log'') = None"
    by (simp add: init_def)
  have e: "run [Join 7 (Some ''missing.log''), Tail 0, Tail 0, Tail 0] (init Map.empty)
           = tail_file_background 0 (tail_file_background 0 (tail_file_background 0
               (on_join 7 (Some ''missing.log'') (init Map.empty))))"
    by simp
  have l: "length (threads (init Map.empty)) = 0" "outbox (init Map.empty) = []"
    "rooms (init Map.empty) ''missing.log'' = {}"
    by (simp_all add: init_def)
  show ?thesis
    using join_missing_file [of "''missing.log''" "init Map.empty" 7, OF _ h] h
    unfolding e Let_def l
    by (simp add: os_path_join_def LOG_DIR_def)
qed

text \<open>
  C3 as stated fails: after one join of a missing file and the first step of its worker
  the connection has received two \<^verbatim>\<open>log_error\<close> events, not one.
\<close>

theorem join_missing_file_counterexample:
  "received 1 (outbox (run [Join 1 (Some ''nofile''), Tail 0] (init Map.empty)))
     = [Joined ''nofile'',
        Log_error ''nofile'' (FileNotFound ''/var/log/nofile''),
        Log_error ''nofile'' (FileNotFound ''/var/log/nofile'')]"
  by (simp add: eval_defs)

subsection \<open>Two joins of one room\<close>

text \<open>
  C1. The claim asks for at most one running worker per room and for no line delivered
  twice after two joins of the same room. \<^verbatim>\<open>on_join\<close> sets \<^verbatim>\<open>old["stop"] = True\<close>
  on the entry it is about to replace, and stores a fresh entry under the same room;
  the old worker reads \<^verbatim>\<open>tail_threads.get(room)\<close> at the top of its loop, finds the
  fresh entry, and goes on. Here connection 1 joins \<^verbatim>\<open>app.log\<close> twice and one line is
  appended: the connection receives the line twice, and both workers are back at the top
  of their loops, past the line.
\<close>

theorem two_joins_two_workers:
  "received 1 (outbox (run [Join 1 (Some ''app.log''), Tail 0, Join 1 (Some ''app.log''), Tail 1,
                  Append ''/var/log/app.log'' ''x\<newline>'', Tail 0, Tail 0, Tail 1, Tail 1]
                 (init [''/var/log/app.log'' \<mapsto> []])))
     = [Joined ''app.log'', Joined ''app.log'',
        Log_line ''app.log'' ''x\<newline>'', Log_line ''app.log'' ''x\<newline>''] \<and>
   map w_pc (threads (run [Join 1 (Some ''app.log''), Tail 0, Join 1 (Some ''app.log''), Tail 1,
                  Append ''/var/log/app.log'' ''x\<newline>'', Tail 0, Tail 0, Tail 1, Tail 1]
                 (init [''/var/log/app.log'' \<mapsto> []])))
     = [Loop_top 2, Loop_top 2]"
  by (simp add: eval_defs)

subsection \<open>Leaving a room\<close>




subsection \<open>Disconnecting\<close>

text \<open>
  C8, as amended. When a connection closes, the event channel takes it out of its rooms,
  but no release runs: \<^verbatim>\<open>on_disconnect\<close> is empty, so the registry, the workers and
  the outbox are as before and no entry is marked stopped. A worker of a running entry
  stays in its loop after the disconnect, and what it reads next it emits to the
  connections that remain in the room.
\<close>

theorem disconnect_runs_no_release:
  "on_disconnect c s = s \<and>
   tail_threads (step (Disconnect c) s) = tail_threads s \<and>
   threads (step (Disconnect c) s) = threads s \<and>
   outbox (step (Disconnect c) s) = outbox s \<and>
   fs (step (Disconnect c) s) = fs s \<and>
   rooms (step (Disconnect c) s) room = rooms s room - {c} \<and>
   (i < length (threads s) \<and> w_pc (threads s ! i) = Loop_top pos \<and>
    tail_threads s (w_room (threads s ! i)) = Some info \<and> \<not> stop info \<longrightarrow>
      w_pc (threads (tail_file_background i (step (Disconnect c) s)) ! i) = Reading pos) \<and>
   (i < length (threads s) \<and> w_pc (threads s ! i) = Loop_top pos \<and>
    tail_threads s (w_room (threads s ! i)) = Some info \<and> \<not> stop info \<and>
    fs s (os_path_join LOG_DIR (w_filename (threads s ! i))) = Some content \<and>
    pos < length content \<longrightarrow>
      outbox (tail_file_background i (tail_file_background i (step (Disconnect c) s)))
        = outbox s @ [(rooms s (w_room (threads s ! i)) - {c},
                       Log_line (w_filename (threads s ! i)) (fst (readline content pos)))])"
proof -
  let ?s' = "close_connection c s"
  have st: "step (Disconnect c) s = ?s'" by (simp add: on_disconnect_def)
  note cf = close_connection_fields [of c s]
  have live: "w_pc (threads (tail_file_background i ?s') ! i) = Reading pos"
    if "i < length (threads s) \<and> w_pc (threads s ! i) = Loop_top pos \<and>
        tail_threads s (w_room (threads s ! i)) = Some info \<and> \<not> stop info"
  proof -
    from that have i: "i < length (threads ?s')" and pc: "w_pc (threads ?s' ! i) = Loop_top pos"
      and e: "tail_threads ?s' (w_room (threads ?s' ! i)) = Some info" and l: "\<not> stop info"
      by (simp_all add: cf)
    have "tail_file_background i ?s' = set_pc i (Reading pos) ?s'"
      using e l by (simp add: tail_Loop_top [OF i pc])
    then show ?thesis using i by (simp add: set_pc_fields)
  qed
  have reads: "outbox (tail_file_background i (tail_file_background i ?s'))
        = outbox s @ [(rooms s (w_room (threads s ! i)) - {c},
                       Log_line (w_filename (threads s ! i)) (fst (readline content pos)))]"
    if "i < length (threads s) \<and> w_pc (threads s ! i) = Loop_top pos \<and>
        tail_threads s (w_room (threads s ! i)) = Some info \<and> \<not> stop info \<and>
        fs s (os_path_join LOG_DIR (w_filename (threads s ! i))) = Some content \<and>
        pos < length content"
  proof -
    from that have i: "i < length (threads ?s')" and pc: "w_pc (threads ?s' ! i) = Loop_top pos"
      and e: "tail_threads ?s' (w_room (threads ?s' ! i)) = Some info"
      and f: "fs ?s' (os_path_join LOG_DIR (w_filename (threads ?s' ! i))) = Some content"
      and l: "\<not> stop info" and u: "pos < length content"
      by (simp_all add: cf)
    from tail_reads_unread(1) [OF i pc e l f u]
    show ?thesis by (simp add: cf)
  qed
  have same: "on_disconnect c s = s" by (simp add: on_disconnect_def)
  have fields: "tail_threads ?s' = tail_threads s" "threads ?s' = threads s"
    "outbox ?s' = outbox s" "fs ?s' = fs s" "rooms ?s' room = rooms s room - {c}"
    by (simp_all add: cf)
  show ?thesis
    unfolding st using same fields live reads by (intro conjI impI)
qed

theorem disconnect_runs_no_release_witness:
  "map_option stop
     (tail_threads (run [Join 1 (Some ''app.log''), Tail 0] (init [''/var/log/app.log'' \<mapsto> []]))
        ''app.log'') = Some False \<and>
   w_pc (threads (run [Join 1 (Some ''app.log''), Tail 0, Disconnect 1, Tail 0]
                    (init [''/var/log/app.log'' \<mapsto> []])) ! 0) = Reading 0"
proof -
  define s where "s = run [Join 1 (Some ''app.log''), Tail 0] (init [''/var/log/app.log'' \<mapsto> []])"
  have e: "tail_threads s ''app.log''
           = Some \<lparr>thread = Some 0, stop = False, entry_file = ''app.log''\<rparr>"
    unfolding s_def by (simp add: eval_defs)
  have w: "threads s = [\<lparr>w_filename = ''app.log'', w_room = ''app.log'', w_pc = Loop_top 0\<rparr>]"
    unfolding s_def by (simp add: eval_defs)
  have r: "run [Join 1 (Some ''app.log''), Tail 0, Disconnect 1, Tail 0]
             (init [''/var/log/app.log'' \<mapsto> []])
           = tail_file_background 0 (step (Disconnect 1) s)"
    unfolding s_def by simp
  have "w_pc (threads (tail_file_background 0 (step (Disconnect 1) s)) ! 0) = Reading 0"
    using disconnect_runs_no_release
            [of 1 s "''app.log''" 0 0 "\<lparr>thread = Some 0, stop = False, entry_file = ''app.log''\<rparr>"]
    by (simp add: w e del: step.simps)
  then show ?thesis using e unfolding r unfolding s_def by simp
qed

text \<open>
  C8 as stated fails: after a join, a disconnect leaves the entry of the room running
  where a leave marks it stopped; after the disconnect the worker reads the next appended
  line and stays in its loop, after the leave it ends.
\<close>

theorem on_disconnect_counterexample:
  "map_option stop
     (tail_threads (run [Join 1 (Some ''app.log''), Tail 0, Disconnect 1]
                      (init [''/var/log/app.log'' \<mapsto> []])) ''app.log'') = Some False \<and>
   map_option stop
     (tail_threads (run [Join 1 (Some ''app.log''), Tail 0, Leave 1 (Some ''app.log'')]
                      (init [''/var/log/app.log'' \<mapsto> []])) ''app.log'') = Some True \<and>
   map w_pc (threads (run [Join 1 (Some ''app.log''), Tail 0, Disconnect 1,
                           Append ''/var/log/app.log'' ''x\<newline>'', Tail 0, Tail 0, Tail 0]
                        (init [''/var/log/app.log'' \<mapsto> []]))) = [Reading 2] \<and>
   map w_pc (threads (run [Join 1 (Some ''app.log''), Tail 0, Leave 1 (Some ''app.log''),
                           Append ''/var/log/app.log'' ''x\<newline>'', Tail 0, Tail 0, Tail 0]
                        (init [''/var/log/app.log'' \<mapsto> []]))) = [Finished]"
  by (simp add: eval_defs)

subsection \<open>Cleanup of a worker\<close>

text \<open>
  C10. A worker ends only through the \<^verbatim>\<open>finally\<close> block, and that block removes the
  entry stored for the worker's room, whatever the entry is. A worker at the top of its
  loop whose room has no entry leaves the loop without emitting.
\<close>

theorem cleanup_pops_current_entry:
  "(i < length (threads s) \<and> w_pc (threads s ! i) = Cleanup \<longrightarrow>
      tail_threads (tail_file_background i s) (w_room (threads s ! i)) = None \<and>
      w_pc (threads (tail_file_background i s) ! i) = Finished) \<and>
   (i < length (threads s) \<and> w_pc (threads (tail_file_background i s) ! i) = Finished \<longrightarrow>
      w_pc (threads s ! i) = Cleanup \<or> w_pc (threads s ! i) = Finished) \<and>
   (j < length (threads s) \<and> w_pc (threads s ! j) = Loop_top pos \<and>
    tail_threads s (w_room (threads s ! j)) = None \<longrightarrow>
      w_pc (threads (tail_file_background j s) ! j) = Cleanup \<and>
      outbox (tail_file_background j s) = outbox s)"
proof (intro conjI impI)
  assume a: "i < length (threads s) \<and> w_pc (threads s ! i) = Cleanup"
  then show "tail_threads (tail_file_background i s) (w_room (threads s ! i)) = None"
    by (simp add: tail_Cleanup set_pc_fields)
  from a show "w_pc (threads (tail_file_background i s) ! i) = Finished"
    by (simp add: tail_Cleanup set_pc_fields)
next
  assume a: "i < length (threads s) \<and> w_pc (threads (tail_file_background i s) ! i) = Finished"
  then have i: "i < length (threads s)"
    and fin: "w_pc (threads (tail_file_background i s) ! i) = Finished" by simp_all
  show "w_pc (threads s ! i) = Cleanup \<or> w_pc (threads s ! i) = Finished"
  proof (cases "w_pc (threads s ! i)")
    case Opening
    have "w_pc (threads (tail_file_background i s) ! i) \<noteq> Finished"
      using i by (simp add: tail_Opening [OF i Opening] set_pc_fields socketio_emit_fields
                    split: option.splits)
    with fin show ?thesis by simp
  next
    case (Loop_top p)
    have "w_pc (threads (tail_file_background i s) ! i) \<noteq> Finished"
      using i by (simp add: tail_Loop_top [OF i Loop_top] set_pc_fields split: option.splits)
    with fin show ?thesis by simp
  next
    case (Reading p)
    have "w_pc (threads (tail_file_background i s) ! i) \<noteq> Finished"
      using i by (simp add: tail_Reading [OF i Reading] Let_def set_pc_fields socketio_emit_fields)
    with fin show ?thesis by simp
  qed simp_all
next
  assume a: "j < length (threads s) \<and> w_pc (threads s ! j) = Loop_top pos \<and>
    tail_threads s (w_room (threads s ! j)) = None"
  then have t: "tail_file_background j s = set_pc j Cleanup s"
    by (simp add: tail_Loop_top)
  from a show "w_pc (threads (tail_file_background j s) ! j) = Cleanup"
    by (simp add: t set_pc_fields)
  show "outbox (tail_file_background j s) = outbox s"
    by (simp add: t set_pc_fields)
qed

text \<open>
  The race in a run: worker 0 has seen its entry stopped and stands before its cleanup
  when a second join stores a fresh entry for worker 1; the cleanup of worker 0 removes
  that entry, and worker 1 leaves its loop at its next step.
\<close>

theorem cleanup_pops_current_entry_witness:
  "tail_threads (run [Join 1 (Some ''app.log''), Tail 0, Leave 1 (Some ''app.log''), Tail 0,
                      Join 1 (Some ''app.log''), Tail 1] (init [''/var/log/app.log'' \<mapsto> []]))
     ''app.log'' = Some \<lparr>thread = Some 1, stop = False, entry_file = ''app.log''\<rparr> \<and>
   tail_threads (run [Join 1 (Some ''app.log''), Tail 0, Leave 1 (Some ''app.log''), Tail 0,
                      Join 1 (Some ''app.log''), Tail 1, Tail 0]
                   (init [''/var/log/app.log'' \<mapsto> []])) ''app.log'' = None \<and>
   map w_pc (threads (run [Join 1 (Some ''app.log''), Tail 0, Leave 1 (Some ''app.log''), Tail 0,
                      Join 1 (Some ''app.log''), Tail 1, Tail 0, Tail 1]
                   (init [''/var/log/app.log'' \<mapsto> []]))) = [Finished, Cleanup]"
proof -
  define s where "s = run [Join 1 (Some ''app.log''), Tail 0, Leave 1 (Some ''app.log''), Tail 0,
                 Join 1 (Some ''app.log''), Tail 1] (init [''/var/log/app.log'' \<mapsto> []])"
  have e: "tail_threads s ''app.log''
           = Some \<lparr>thread = Some 1, stop = False, entry_file = ''app.log''\<rparr>"
    unfolding s_def by (simp add: eval_defs)
  have w: "threads s = [\<lparr>w_filename = ''app.log'', w_room = ''app.log'', w_pc = Cleanup\<rparr>,
                        \<lparr>w_filename = ''app.log'', w_room = ''app.log'', w_pc = Loop_top 0\<rparr>]"
    unfolding s_def by (simp add: eval_defs)
  have r1: "run [Join 1 (Some ''app.log''), Tail 0, Leave 1 (Some ''app.log''), Tail 0,
                 Join 1 (Some ''app.log''), Tail 1, Tail 0] (init [''/var/log/app.log'' \<mapsto> []])
            = tail_file_background 0 s"
    unfolding s_def by simp
  have r2: "run [Join 1 (Some ''app.log''), Tail 0, Leave 1 (Some ''app.log''), Tail 0,
                 Join 1 (Some ''app.log''), Tail 1, Tail 0, Tail 1]
              (init [''/var/log/app.log'' \<mapsto> []])
            = tail_file_background 1 (tail_file_background 0 s)"
    unfolding s_def by simp
  have gone: "tail_threads (tail_file_background 0 s) ''app.log'' = None"
    using cleanup_pops_current_entry [of 0 s 0 0] by (simp add: w)
  have t0: "threads (tail_file_background 0 s)
            = [\<lparr>w_filename = ''app.log'', w_room = ''app.log'', w_pc = Finished\<rparr>,
               \<lparr>w_filename = ''app.log'', w_room = ''app.log'', w_pc = Loop_top 0\<rparr>]"
    by (simp add: tail_Cleanup w set_pc_def)
  have "w_pc (threads (tail_file_background 1 (tail_file_background 0 s)) ! 1) = Cleanup"
    using cleanup_pops_current_entry [of 0 "tail_file_background 0 s" 1 0] gone
    by (simp add: t0)
  moreover have "threads (tail_file_background 1 (tail_file_background 0 s))
      = (threads (tail_file_background 0 s))
          [1 := (threads (tail_file_background 0 s) ! 1)\<lparr>w_pc := Cleanup\<rparr>]"
    using gone by (simp add: tail_Loop_top t0 set_pc_def)
  ultimately have "map w_pc (threads (tail_file_background 1 (tail_file_background 0 s)))
      = [Finished, Cleanup]"
    by (simp add: t0)
  then show ?thesis using e gone unfolding r1 r2 s_def by blast
qed

subsection \<open>The tail worker\<close>




end
